theory Spec2Isabelle
  imports Complex_Main
begin

section \<open>JavaScript numbers\<close>

text \<open>
  The pricing code of \<open>src/components/default.js\<close> and \<open>src/components/reverse.js\<close>
  computes on JavaScript numbers. A number is modelled as a real or one of the three
  special values of the language: \<open>Infinity\<close>, \<open>-Infinity\<close> and \<open>NaN\<close>. The
  operations follow the language on the special values (a division by zero gives an
  infinity or \<open>NaN\<close>, the logarithm of a negative number gives \<open>NaN\<close>, every
  comparison with \<open>NaN\<close> is false). On finite operands they are the exact operations
  of the reals: rounding, overflow and underflow of the 64-bit format are not
  modelled, and zero has no sign (it divides like \<open>+0\<close>). The section on 64-bit
  numbers adds the rounding, for the properties that depend on it.
\<close>

datatype jsnum = Fin real | PInf | NInf | NaN

text \<open>The sign of a product or quotient with an infinite operand.\<close>

definition signed_inf :: "bool \<Rightarrow> jsnum" where
  "signed_inf positive = (if positive then PInf else NInf)"

instantiation jsnum :: "{plus, minus, uminus, times, inverse, ord}"
begin

fun uminus_jsnum :: "jsnum \<Rightarrow> jsnum" where
  "uminus_jsnum (Fin a) = Fin (- a)"
| "uminus_jsnum PInf = NInf"
| "uminus_jsnum NInf = PInf"
| "uminus_jsnum NaN = NaN"

fun plus_jsnum :: "jsnum \<Rightarrow> jsnum \<Rightarrow> jsnum" where
  "plus_jsnum NaN y = NaN"
| "plus_jsnum x NaN = NaN"
| "plus_jsnum (Fin a) (Fin b) = Fin (a + b)"
| "plus_jsnum PInf NInf = NaN"
| "plus_jsnum NInf PInf = NaN"
| "plus_jsnum PInf y = PInf"
| "plus_jsnum NInf y = NInf"
| "plus_jsnum (Fin a) y = y"

definition minus_jsnum :: "jsnum \<Rightarrow> jsnum \<Rightarrow> jsnum" where
  "minus_jsnum x y = x + (- y)"

fun times_jsnum :: "jsnum \<Rightarrow> jsnum \<Rightarrow> jsnum" where
  "times_jsnum NaN y = NaN"
| "times_jsnum x NaN = NaN"
| "times_jsnum (Fin a) (Fin b) = Fin (a * b)"
| "times_jsnum (Fin a) PInf = (if a = 0 then NaN else signed_inf (0 < a))"
| "times_jsnum (Fin a) NInf = (if a = 0 then NaN else signed_inf (a < 0))"
| "times_jsnum PInf (Fin b) = (if b = 0 then NaN else signed_inf (0 < b))"
| "times_jsnum NInf (Fin b) = (if b = 0 then NaN else signed_inf (b < 0))"
| "times_jsnum PInf PInf = PInf"
| "times_jsnum PInf NInf = NInf"
| "times_jsnum NInf PInf = NInf"
| "times_jsnum NInf NInf = PInf"

fun divide_jsnum :: "jsnum \<Rightarrow> jsnum \<Rightarrow> jsnum" where
  "divide_jsnum NaN y = NaN"
| "divide_jsnum x NaN = NaN"
| "divide_jsnum (Fin a) (Fin b) =
     (if b \<noteq> 0 then Fin (a / b) else if a = 0 then NaN else signed_inf (0 < a))"
| "divide_jsnum (Fin a) y = Fin 0"
| "divide_jsnum PInf (Fin b) = signed_inf (0 \<le> b)"
| "divide_jsnum NInf (Fin b) = signed_inf (b < 0)"
| "divide_jsnum x y = NaN"

definition inverse_jsnum :: "jsnum \<Rightarrow> jsnum" where
  "inverse_jsnum x = divide (Fin 1) x"

fun less_jsnum :: "jsnum \<Rightarrow> jsnum \<Rightarrow> bool" where
  "less_jsnum NaN y = False"
| "less_jsnum x NaN = False"
| "less_jsnum (Fin a) (Fin b) = (a < b)"
| "less_jsnum x NInf = False"
| "less_jsnum PInf y = False"
| "less_jsnum x y = True"

fun less_eq_jsnum :: "jsnum \<Rightarrow> jsnum \<Rightarrow> bool" where
  "less_eq_jsnum NaN y = False"
| "less_eq_jsnum x NaN = False"
| "less_eq_jsnum (Fin a) (Fin b) = (a \<le> b)"
| "less_eq_jsnum PInf PInf = True"
| "less_eq_jsnum NInf NInf = True"
| "less_eq_jsnum x NInf = False"
| "less_eq_jsnum PInf y = False"
| "less_eq_jsnum x y = True"

instance ..

end

text \<open>\<open>Math.abs\<close>, \<open>Math.exp\<close>, \<open>Math.log\<close> and \<open>Math.sqrt\<close>.\<close>

fun Math_abs :: "jsnum \<Rightarrow> jsnum" where
  "Math_abs (Fin a) = Fin \<bar>a\<bar>"
| "Math_abs PInf = PInf"
| "Math_abs NInf = PInf"
| "Math_abs NaN = NaN"

fun Math_exp :: "jsnum \<Rightarrow> jsnum" where
  "Math_exp (Fin a) = Fin (exp a)"
| "Math_exp PInf = PInf"
| "Math_exp NInf = Fin 0"
| "Math_exp NaN = NaN"

fun Math_log :: "jsnum \<Rightarrow> jsnum" where
  "Math_log (Fin a) = (if 0 < a then Fin (ln a) else if a = 0 then NInf else NaN)"
| "Math_log PInf = PInf"
| "Math_log NInf = NaN"
| "Math_log NaN = NaN"

fun Math_sqrt :: "jsnum \<Rightarrow> jsnum" where
  "Math_sqrt (Fin a) = (if 0 \<le> a then Fin (sqrt a) else NaN)"
| "Math_sqrt PInf = PInf"
| "Math_sqrt NInf = NaN"
| "Math_sqrt NaN = NaN"

fun is_finite :: "jsnum \<Rightarrow> bool" where
  "is_finite (Fin a) = True"
| "is_finite x = False"

section \<open>The pricing result\<close>

text \<open>
  \<open>blackScholesCall\<close> returns either the number \<open>0\<close> or an object with six
  properties. \<open>get_property v k\<close> reads the number held by the property \<open>k\<close> of \<open>v\<close>;
  a number has none of the six properties, and reading one gives \<open>undefined\<close>,
  which is \<open>None\<close>.
\<close>

record pricing =
  premium :: jsnum
  d1 :: jsnum
  d2 :: jsnum
  Nd1 :: jsnum
  Nd2 :: jsnum
  discountFactor :: jsnum

datatype js_value = Num jsnum | Obj pricing

fun get_property :: "js_value \<Rightarrow> string \<Rightarrow> jsnum option" where
  "get_property (Num n) k = None"
| "get_property (Obj p) k =
     (if k = ''premium'' then Some (premium p)
      else if k = ''d1'' then Some (d1 p)
      else if k = ''d2'' then Some (d2 p)
      else if k = ''Nd1'' then Some (Nd1 p)
      else if k = ''Nd2'' then Some (Nd2 p)
      else if k = ''discountFactor'' then Some (discountFactor p)
      else None)"

section \<open>src/components/default.js\<close>

definition normCDF_default :: "jsnum \<Rightarrow> jsnum" where
  "normCDF_default x =
     (let t = Fin 1 / (Fin 1 + Fin 0.2316419 * Math_abs x);
          d = Fin 0.3989423 * Math_exp ((- x * x) / Fin 2);
          prob = d * t * (Fin 0.3193815 + t * (Fin (-0.3565638) + t * (Fin 1.781478
                   + t * (Fin (-1.821256) + t * Fin 1.330274))));
          prob = (if Fin 0 < x then Fin 1 - prob else prob)
      in prob)"

definition blackScholesCall_default ::
  "jsnum \<Rightarrow> jsnum \<Rightarrow> jsnum \<Rightarrow> jsnum \<Rightarrow> jsnum \<Rightarrow> js_value" where
  "blackScholesCall_default S K T r sigma =
     (if T \<le> Fin 0 \<or> sigma \<le> Fin 0 then Num (Fin 0)
      else
        let d1 = (Math_log (S / K) + (r + Fin 0.5 * sigma * sigma) * T)
                   / (sigma * Math_sqrt T);
            d2 = d1 - sigma * Math_sqrt T;
            callPrice = S * normCDF_default d1 - K * Math_exp (- r * T) * normCDF_default d2
        in Obj \<lparr> premium = callPrice, d1 = d1, d2 = d2,
                 Nd1 = normCDF_default d1, Nd2 = normCDF_default d2,
                 discountFactor = Math_exp (- r * T) \<rparr>)"

section \<open>src/components/reverse.js\<close>

definition normCDF_reverse :: "jsnum \<Rightarrow> jsnum" where
  "normCDF_reverse x =
     (let t = Fin 1 / (Fin 1 + Fin 0.2316419 * Math_abs x);
          d = Fin 0.3989423 * Math_exp ((- x * x) / Fin 2);
          p = d * t * (Fin 0.3193815 + t * (Fin (-0.3565638) + t * (Fin 1.781478
                + t * (Fin (-1.821256) + t * Fin 1.330274))))
      in if Fin 0 < x then Fin 1 - p else p)"

definition blackScholesCall_reverse ::
  "jsnum \<Rightarrow> jsnum \<Rightarrow> jsnum \<Rightarrow> jsnum \<Rightarrow> jsnum \<Rightarrow> js_value" where
  "blackScholesCall_reverse S K T r sigma =
     (if T \<le> Fin 0 \<or> sigma \<le> Fin 0 then Num (Fin 0)
      else
        let d1 = (Math_log (S / K) + (r + (sigma * sigma) / Fin 2) * T)
                   / (sigma * Math_sqrt T);
            d2 = d1 - sigma * Math_sqrt T;
            callPrice = S * normCDF_reverse d1 - K * Math_exp (- r * T) * normCDF_reverse d2
        in Obj \<lparr> premium = callPrice, d1 = d1, d2 = d2,
                 Nd1 = normCDF_reverse d1, Nd2 = normCDF_reverse d2,
                 discountFactor = Math_exp (- r * T) \<rparr>)"


text \<open>
  The component state \<open>inputs\<close> is an object with the five properties \<open>S\<close>, \<open>K\<close>,
  \<open>T\<close>, \<open>r\<close> and \<open>sigma\<close>; \<open>sensitivityType\<close> is one of these five names (the
  options of the \<open>select\<close> element).
\<close>

record inputs =
  inputs_S :: jsnum
  inputs_K :: jsnum
  inputs_T :: jsnum
  inputs_r :: jsnum
  inputs_sigma :: jsnum

datatype field = Field_S | Field_K | Field_T | Field_r | Field_sigma

text \<open>\<open>inputs[field]\<close> and the spread \<open>{ ...inputs, [field]: v }\<close>.\<close>

fun get_field :: "inputs \<Rightarrow> field \<Rightarrow> jsnum" where
  "get_field i Field_S = inputs_S i"
| "get_field i Field_K = inputs_K i"
| "get_field i Field_T = inputs_T i"
| "get_field i Field_r = inputs_r i"
| "get_field i Field_sigma = inputs_sigma i"

fun set_field :: "inputs \<Rightarrow> field \<Rightarrow> jsnum \<Rightarrow> inputs" where
  "set_field i Field_S v = i\<lparr>inputs_S := v\<rparr>"
| "set_field i Field_K v = i\<lparr>inputs_K := v\<rparr>"
| "set_field i Field_T v = i\<lparr>inputs_T := v\<rparr>"
| "set_field i Field_r v = i\<lparr>inputs_r := v\<rparr>"
| "set_field i Field_sigma v = i\<lparr>inputs_sigma := v\<rparr>"

record range =
  range_min :: jsnum
  range_max :: jsnum
  range_label :: string

text \<open>The rupee sign U+20B9 of two labels, as its UTF-8 bytes.\<close>

definition rupee :: string where
  "rupee = [CHR 0xE2, CHR 0x82, CHR 0xB9]"

definition ranges :: "inputs \<Rightarrow> field \<Rightarrow> range" where
  "ranges inputs sensitivityType =
     (case sensitivityType of
        Field_S \<Rightarrow> \<lparr> range_min = inputs_S inputs * Fin 0.7, range_max = inputs_S inputs * Fin 1.3,
                     range_label = ''Stock Price ('' @ rupee @ '')'' \<rparr>
      | Field_K \<Rightarrow> \<lparr> range_min = inputs_K inputs * Fin 0.7, range_max = inputs_K inputs * Fin 1.3,
                     range_label = ''Strike Price ('' @ rupee @ '')'' \<rparr>
      | Field_T \<Rightarrow> \<lparr> range_min = Fin 0.1, range_max = Fin 2,
                     range_label = ''Time to Expiry (years)'' \<rparr>
      | Field_r \<Rightarrow> \<lparr> range_min = Fin 0.01, range_max = Fin 0.15,
                     range_label = ''Risk-free Rate'' \<rparr>
      | Field_sigma \<Rightarrow> \<lparr> range_min = Fin 0.05, range_max = Fin 0.6,
                     range_label = ''Volatility'' \<rparr>)"

text \<open>One element of \<open>sensitivityData\<close>; its \<open>premium\<close> is \<open>undefined\<close> (\<open>None\<close>)
  when the pricer returned a number.\<close>

record point =
  point_x :: jsnum
  point_premium :: "jsnum option"
  point_label :: string

text \<open>The body of the \<open>for\<close> loop: the element pushed at counter \<open>i\<close>.\<close>

definition sample :: "inputs \<Rightarrow> field \<Rightarrow> range \<Rightarrow> jsnum \<Rightarrow> nat \<Rightarrow> point" where
  "sample inputs sensitivityType rng stepSize i =
     (let val = range_min rng + Fin (real i) * stepSize;
          testInputs = set_field inputs sensitivityType val;
          res = blackScholesCall_reverse (inputs_S testInputs) (inputs_K testInputs)
                  (inputs_T testInputs) (inputs_r testInputs) (inputs_sigma testInputs)
      in \<lparr> point_x = val, point_premium = get_property res ''premium'',
            point_label = range_label rng \<rparr>)"

text \<open>\<open>for (let i = 0; i <= steps; i++) { ...; data.push(...) }\<close>, from any counter.\<close>

function sweep :: "inputs \<Rightarrow> field \<Rightarrow> range \<Rightarrow> jsnum \<Rightarrow> nat \<Rightarrow> nat \<Rightarrow> point list \<Rightarrow> point list" where
  "sweep inputs sensitivityType rng stepSize steps i data =
     (if i \<le> steps
      then sweep inputs sensitivityType rng stepSize steps (i + 1)
             (data @ [sample inputs sensitivityType rng stepSize i])
      else data)"
  by pat_completeness auto
termination
  by (relation "measure (\<lambda>(inputs, sensitivityType, rng, stepSize, steps, i, data). Suc steps - i)") auto

text \<open>\<open>generateSensitivityData\<close>; the list it passes to \<open>setSensitivityData\<close> is the result.\<close>

definition generateSensitivityData :: "inputs \<Rightarrow> field \<Rightarrow> point list" where
  "generateSensitivityData inputs sensitivityType =
     (let data = [];
          rng = ranges inputs sensitivityType;
          steps = 50;
          stepSize = (range_max rng - range_min rng) / Fin (real steps)
      in sweep inputs sensitivityType rng stepSize steps 0 data)"

section \<open>The specification's formulas\<close>

text \<open>
  The approximation of the normal distribution function as the specification words it,
  over the reals: \<open>t = 1 / (1 + 0.2316419 |x|)\<close>, \<open>d = 0.3989423 exp (-x\<^sup>2/2)\<close>,
  the polynomial in Horner form, \<open>prob = d t poly\<close>, and \<open>1 - prob\<close> for \<open>x > 0\<close>.
\<close>

definition spec_t :: "real \<Rightarrow> real" where
  "spec_t x = 1 / (1 + 0.2316419 * \<bar>x\<bar>)"

definition spec_d :: "real \<Rightarrow> real" where
  "spec_d x = 0.3989423 * exp (- (x\<^sup>2) / 2)"

definition spec_poly :: "real \<Rightarrow> real" where
  "spec_poly t =
     0.3193815 + t * (-0.3565638 + t * (1.781478 + t * (-1.821256 + t * 1.330274)))"

definition spec_prob :: "real \<Rightarrow> real" where
  "spec_prob x = spec_d x * spec_t x * spec_poly (spec_t x)"

definition spec_normalCDF :: "real \<Rightarrow> real" where
  "spec_normalCDF x = (if x > 0 then 1 - spec_prob x else spec_prob x)"

text \<open>The pricing formulas of the specification over the reals.\<close>

definition spec_d1 :: "real \<Rightarrow> real \<Rightarrow> real \<Rightarrow> real \<Rightarrow> real \<Rightarrow> real" where
  "spec_d1 S K T r sigma = (ln (S / K) + (r + 0.5 * sigma\<^sup>2) * T) / (sigma * sqrt T)"

definition spec_d2 :: "real \<Rightarrow> real \<Rightarrow> real \<Rightarrow> real \<Rightarrow> real \<Rightarrow> real" where
  "spec_d2 S K T r sigma = spec_d1 S K T r sigma - sigma * sqrt T"

definition spec_premium :: "real \<Rightarrow> real \<Rightarrow> real \<Rightarrow> real \<Rightarrow> real \<Rightarrow> real" where
  "spec_premium S K T r sigma =
     S * spec_normalCDF (spec_d1 S K T r sigma)
       - K * exp (- r * T) * spec_normalCDF (spec_d2 S K T r sigma)"

text \<open>The names of the six properties of a pricing result.\<close>

definition pricing_fields :: "string list" where
  "pricing_fields = [''premium'', ''d1'', ''d2'', ''Nd1'', ''Nd2'', ''discountFactor'']"

text \<open>A result all of whose six properties are finite numbers.\<close>

fun all_fields_finite :: "js_value \<Rightarrow> bool" where
  "all_fields_finite (Num n) = False"
| "all_fields_finite (Obj p) =
     (is_finite (premium p) \<and> is_finite (d1 p) \<and> is_finite (d2 p) \<and>
      is_finite (Nd1 p) \<and> is_finite (Nd2 p) \<and> is_finite (discountFactor p))"


text \<open>The pricer of \<open>reverse.js\<close> applied to an \<open>inputs\<close> object.\<close>

definition price_inputs :: "inputs \<Rightarrow> js_value" where
  "price_inputs i =
     blackScholesCall_reverse (inputs_S i) (inputs_K i) (inputs_T i) (inputs_r i) (inputs_sigma i)"

text \<open>
  The specification's \<open>sweep(baseInputs, field, min, max, steps)\<close>: the loop of
  \<open>generateSensitivityData\<close> with the range and the number of steps as parameters.
\<close>

definition run_sweep :: "inputs \<Rightarrow> field \<Rightarrow> range \<Rightarrow> nat \<Rightarrow> point list" where
  "run_sweep inputs sensitivityType rng steps =
     sweep inputs sensitivityType rng
       ((range_max rng - range_min rng) / Fin (real steps)) steps 0 []"

text \<open>The polynomial \<open>t poly(t)\<close> of the approximation, and its derivative.\<close>

definition tail_poly :: "real \<Rightarrow> real" where
  "tail_poly t = t * spec_poly t"

definition tail_poly' :: "real \<Rightarrow> real" where
  "tail_poly' t =
     0.3193815 + t * (-0.7131276 + t * (5.344434 + t * (-7.285024 + t * 6.65137)))"

text \<open>
  The quantities of the analysis of the premium as a function of the spot price. For
  \<open>u \<ge> 0\<close>, \<open>smooth_t u\<close> is \<open>spec_t u\<close> without the absolute value, \<open>mills u\<close> is the
  quotient of \<open>spec_prob u\<close> by the density \<open>spec_d u\<close> and \<open>mills'\<close> its derivative,
  \<open>upper_prob\<close> is \<open>spec_prob\<close>, and \<open>slope u\<close> is the quotient of the derivative of
  \<open>- spec_prob\<close> by the density. \<open>curv\<close> and \<open>slope_poly\<close> are \<open>- mills' / 0.2316419\<close>
  and \<open>0.2316419 slope\<close> as polynomials in \<open>t = smooth_t u\<close>, with their derivatives.
\<close>

definition smooth_t :: "real \<Rightarrow> real" where
  "smooth_t u = 1 / (1 + 0.2316419 * u)"

definition mills :: "real \<Rightarrow> real" where
  "mills u = tail_poly (smooth_t u)"



definition upper_prob :: "real \<Rightarrow> real" where
  "upper_prob x = 0.3989423 * exp (- (x\<^sup>2) / 2) * mills x"








section \<open>64-bit numbers\<close>

text \<open>
  The numbers of the language are the 64-bit binary floating-point numbers, and every
  arithmetic operation returns the exact result rounded to the nearest of them, a tie
  going to the neighbour whose significand is even. \<open>round_to_double\<close> is this rounding.
  A finite number is an integer multiple of a power of two, the integer having at most
  53 bits: for \<open>x\<close> between \<open>2^e\<close> and \<open>2^(e+1)\<close> the spacing is \<open>2^(e-52)\<close>, the
  exponent \<open>e\<close> being at least \<open>-1022\<close>, so that below \<open>2^(-1022)\<close> the spacing stays
  \<open>2^(-1074)\<close> and a small enough result rounds to zero. A rounded value above the
  largest finite number \<open>(2^53 - 1) 2^971\<close> is replaced by an infinity. Zero has no sign
  here either.
\<close>

definition rne :: "real \<Rightarrow> int" where
  "rne q =
     (let f = \<lfloor>q\<rfloor>
      in if q - of_int f < 1 / 2 then f
         else if 1 / 2 < q - of_int f then f + 1
         else if even f then f else f + 1)"

definition ulp_exp :: "real \<Rightarrow> int" where
  "ulp_exp x = max \<lfloor>log 2 \<bar>x\<bar>\<rfloor> (- 1022) - 52"

definition max_double :: real where
  "max_double = (2 ^ 53 - 1) * 2 ^ 971"

definition round_to_double :: "real \<Rightarrow> jsnum" where
  "round_to_double x =
     (if x = 0 then Fin 0
      else
        let u = 2 powr of_int (ulp_exp x);
            y = of_int (rne (x / u)) * u
        in if max_double < \<bar>y\<bar> then signed_inf (0 < x) else Fin y)"

fun rounded :: "jsnum \<Rightarrow> jsnum" where
  "rounded (Fin a) = round_to_double a"
| "rounded x = x"

text \<open>
  A \<open>double\<close> is a number on which the operations round: a sum, difference, product
  or quotient is the operation of the section above followed by \<open>rounded\<close>. The negation,
  the absolute value and the comparisons are exact. \<open>Math.exp\<close>, \<open>Math.log\<close> and
  \<open>Math.sqrt\<close> are taken to round the exact value as well. \<open>lit c\<close> is the number
  denoted by the decimal literal \<open>c\<close> of the source text, and \<open>is_double x\<close> says that
  \<open>x\<close> is one of the 64-bit numbers.
\<close>

datatype double = Double (num_of: jsnum)

instantiation double :: "{plus, minus, uminus, times, inverse, ord}"
begin

definition plus_double :: "double \<Rightarrow> double \<Rightarrow> double" where
  "plus_double x y = Double (rounded (num_of x + num_of y))"

definition minus_double :: "double \<Rightarrow> double \<Rightarrow> double" where
  "minus_double x y = Double (rounded (num_of x - num_of y))"

definition uminus_double :: "double \<Rightarrow> double" where
  "uminus_double x = Double (- num_of x)"

definition times_double :: "double \<Rightarrow> double \<Rightarrow> double" where
  "times_double x y = Double (rounded (num_of x * num_of y))"

definition divide_double :: "double \<Rightarrow> double \<Rightarrow> double" where
  "divide_double x y = Double (rounded (num_of x / num_of y))"

definition inverse_double :: "double \<Rightarrow> double" where
  "inverse_double x = Double (rounded (inverse (num_of x)))"

definition less_double :: "double \<Rightarrow> double \<Rightarrow> bool" where
  "less_double x y = (num_of x < num_of y)"

definition less_eq_double :: "double \<Rightarrow> double \<Rightarrow> bool" where
  "less_eq_double x y = (num_of x \<le> num_of y)"

instance ..

end

definition lit :: "real \<Rightarrow> double" where
  "lit c = Double (round_to_double c)"

definition is_double :: "double \<Rightarrow> bool" where
  "is_double x = (rounded (num_of x) = num_of x)"

definition Math_abs64 :: "double \<Rightarrow> double" where
  "Math_abs64 x = Double (Math_abs (num_of x))"

definition Math_exp64 :: "double \<Rightarrow> double" where
  "Math_exp64 x = Double (rounded (Math_exp (num_of x)))"

definition Math_log64 :: "double \<Rightarrow> double" where
  "Math_log64 x = Double (rounded (Math_log (num_of x)))"

definition Math_sqrt64 :: "double \<Rightarrow> double" where
  "Math_sqrt64 x = Double (rounded (Math_sqrt (num_of x)))"

text \<open>The power of two \<open>2^k\<close> as a \<open>double\<close>.\<close>

definition two_to :: "int \<Rightarrow> double" where
  "two_to k = Double (Fin (2 powr of_int k))"

text \<open>
  The functions of \<open>src/components/default.js\<close> on these numbers. The properties of
  the returned object hold the numbers computed.
\<close>

definition normCDF_default64 :: "double \<Rightarrow> double" where
  "normCDF_default64 x =
     (let t = lit 1 / (lit 1 + lit 0.2316419 * Math_abs64 x);
          d = lit 0.3989423 * Math_exp64 ((- x * x) / lit 2);
          prob = d * t * (lit 0.3193815 + t * (lit (-0.3565638) + t * (lit 1.781478
                   + t * (lit (-1.821256) + t * lit 1.330274))));
          prob = (if lit 0 < x then lit 1 - prob else prob)
      in prob)"

definition blackScholesCall_default64 ::
  "double \<Rightarrow> double \<Rightarrow> double \<Rightarrow> double \<Rightarrow> double \<Rightarrow> js_value" where
  "blackScholesCall_default64 S K T r sigma =
     (if T \<le> lit 0 \<or> sigma \<le> lit 0 then Num (num_of (lit 0))
      else
        let d1 = (Math_log64 (S / K) + (r + lit 0.5 * sigma * sigma) * T)
                   / (sigma * Math_sqrt64 T);
            d2 = d1 - sigma * Math_sqrt64 T;
            callPrice = S * normCDF_default64 d1 - K * Math_exp64 (- r * T) * normCDF_default64 d2
        in Obj \<lparr> premium = num_of callPrice, d1 = num_of d1, d2 = num_of d2,
                 Nd1 = num_of (normCDF_default64 d1), Nd2 = num_of (normCDF_default64 d2),
                 discountFactor = num_of (Math_exp64 (- r * T)) \<rparr>)"

text \<open>The functions of \<open>src/components/reverse.js\<close> on these numbers.\<close>

definition normCDF_reverse64 :: "double \<Rightarrow> double" where
  "normCDF_reverse64 x =
     (let t = lit 1 / (lit 1 + lit 0.2316419 * Math_abs64 x);
          d = lit 0.3989423 * Math_exp64 ((- x * x) / lit 2);
          p = d * t * (lit 0.3193815 + t * (lit (-0.3565638) + t * (lit 1.781478
                + t * (lit (-1.821256) + t * lit 1.330274))))
      in if lit 0 < x then lit 1 - p else p)"

definition blackScholesCall_reverse64 ::
  "double \<Rightarrow> double \<Rightarrow> double \<Rightarrow> double \<Rightarrow> double \<Rightarrow> js_value" where
  "blackScholesCall_reverse64 S K T r sigma =
     (if T \<le> lit 0 \<or> sigma \<le> lit 0 then Num (num_of (lit 0))
      else
        let d1 = (Math_log64 (S / K) + (r + (sigma * sigma) / lit 2) * T)
                   / (sigma * Math_sqrt64 T);
            d2 = d1 - sigma * Math_sqrt64 T;
            callPrice = S * normCDF_reverse64 d1 - K * Math_exp64 (- r * T) * normCDF_reverse64 d2
        in Obj \<lparr> premium = num_of callPrice, d1 = num_of d1, d2 = num_of d2,
                 Nd1 = num_of (normCDF_reverse64 d1), Nd2 = num_of (normCDF_reverse64 d2),
                 discountFactor = num_of (Math_exp64 (- r * T)) \<rparr>)"

declare sweep.simps [simp del]

section \<open>Arithmetic of the numbers\<close>

lemma Fin_minus [simp]: "Fin a - Fin b = Fin (a - b)"
  by (simp add: minus_jsnum_def)

lemma pos_not_le_zero: "Fin 0 < x \<Longrightarrow> \<not> x \<le> Fin 0"
  by (cases x) simp_all

lemma half_square_eq: "Fin 0.5 * s * s = (s * s) / Fin 2"
  by (cases s) (simp_all add: signed_inf_def)

lemma not_finite_plus: "\<not> is_finite a \<Longrightarrow> \<not> is_finite (a + b)"
  by (cases a; cases b) simp_all

lemma not_finite_divide: "\<not> is_finite a \<Longrightarrow> \<not> is_finite (a / b)"
  by (cases a; cases b) (simp_all add: signed_inf_def)

lemma not_finite_minus: "\<not> is_finite a \<Longrightarrow> \<not> is_finite (a - b)"
  by (cases a; cases b) (simp_all add: minus_jsnum_def)

lemma log_not_finite:
  assumes "S \<le> Fin 0 \<or> K \<le> Fin 0" and "\<not> (S < Fin 0 \<and> K < Fin 0)"
  shows "\<not> is_finite (Math_log (S / K))"
proof (cases S)
  case (Fin a)
  show ?thesis
  proof (cases K)
    case (Fin b)
    with \<open>S = Fin a\<close> assms show ?thesis
      by (auto simp add: signed_inf_def divide_le_0_iff zero_less_divide_iff not_less)
  qed (use \<open>S = Fin a\<close> assms in \<open>auto simp add: signed_inf_def\<close>)
qed (use assms in \<open>cases K; auto simp add: signed_inf_def\<close>)+

section \<open>The two copies on finite numbers\<close>

text \<open>
  In exact arithmetic \<open>0.5 * sigma * sigma\<close> and \<open>(sigma * sigma) / 2\<close> are one
  number, so that a fact on finite inputs carries over from one copy to the other.
  The 64-bit copies are compared in the section on the approximation.
\<close>

lemma normCDF_default_reverse: "normCDF_default x = normCDF_reverse x"
  by (simp add: normCDF_default_def normCDF_reverse_def Let_def)

lemma blackScholesCall_default_reverse:
  "blackScholesCall_default S K T r sigma = blackScholesCall_reverse S K T r sigma"
  unfolding blackScholesCall_default_def blackScholesCall_reverse_def
    half_square_eq normCDF_default_reverse ..

lemma t_Fin: "Fin 1 / (Fin 1 + Fin 0.2316419 * Math_abs (Fin x)) = Fin (spec_t x)"
proof -
  have "0 \<le> 0.2316419 * \<bar>x\<bar>" by simp
  then have "1 + 0.2316419 * \<bar>x\<bar> \<noteq> 0" by linarith
  then show ?thesis by (simp add: spec_t_def)
qed

lemma d_Fin: "Fin 0.3989423 * Math_exp ((- Fin x * Fin x) / Fin 2) = Fin (spec_d x)"
  by (simp add: spec_d_def power2_eq_square)

lemma normCDF_default_Fin: "normCDF_default (Fin x) = Fin (spec_normalCDF x)"
  unfolding normCDF_default_def t_Fin d_Fin Let_def
  by (simp add: spec_normalCDF_def spec_prob_def spec_poly_def)

lemma normCDF_reverse_Fin: "normCDF_reverse (Fin x) = Fin (spec_normalCDF x)"
  using normCDF_default_Fin [of x] by (simp only: normCDF_default_reverse)

lemma blackScholesCall_default_Fin:
  assumes "0 < S / K" and "0 < T" and "0 < sigma"
  shows "blackScholesCall_default (Fin S) (Fin K) (Fin T) (Fin r) (Fin sigma) =
           Obj \<lparr> premium = Fin (spec_premium S K T r sigma),
                 d1 = Fin (spec_d1 S K T r sigma), d2 = Fin (spec_d2 S K T r sigma),
                 Nd1 = Fin (spec_normalCDF (spec_d1 S K T r sigma)),
                 Nd2 = Fin (spec_normalCDF (spec_d2 S K T r sigma)),
                 discountFactor = Fin (exp (- r * T)) \<rparr>"
proof -
  from assms(1) have K: "K \<noteq> 0" by (cases "K = 0") simp_all
  from assms have st: "sigma * sqrt T \<noteq> 0" by simp
  show ?thesis
    using assms K st
    by (simp add: blackScholesCall_default_def Let_def normCDF_default_Fin
        spec_d1_def spec_d2_def spec_premium_def power2_eq_square)
qed

lemma blackScholesCall_reverse_Fin:
  assumes "0 < S / K" and "0 < T" and "0 < sigma"
  shows "blackScholesCall_reverse (Fin S) (Fin K) (Fin T) (Fin r) (Fin sigma) =
           Obj \<lparr> premium = Fin (spec_premium S K T r sigma),
                 d1 = Fin (spec_d1 S K T r sigma), d2 = Fin (spec_d2 S K T r sigma),
                 Nd1 = Fin (spec_normalCDF (spec_d1 S K T r sigma)),
                 Nd2 = Fin (spec_normalCDF (spec_d2 S K T r sigma)),
                 discountFactor = Fin (exp (- r * T)) \<rparr>"
  using blackScholesCall_default_Fin [OF assms, of r]
  by (simp only: blackScholesCall_default_reverse)

section \<open>The approximation over the reals\<close>

lemma spec_t_pos: "0 < spec_t x"
proof -
  have "0 \<le> 0.2316419 * \<bar>x\<bar>" by simp
  then have "0 < 1 + 0.2316419 * \<bar>x\<bar>" by linarith
  then show ?thesis by (simp add: spec_t_def)
qed


lemma spec_t_antimono: "\<bar>x\<bar> \<le> \<bar>y\<bar> \<Longrightarrow> spec_t y \<le> spec_t x"
proof -
  assume "\<bar>x\<bar> \<le> \<bar>y\<bar>"
  moreover have "0 \<le> 0.2316419 * \<bar>x\<bar>" by simp
  ultimately have "0 < 1 + 0.2316419 * \<bar>x\<bar>" "1 + 0.2316419 * \<bar>x\<bar> \<le> 1 + 0.2316419 * \<bar>y\<bar>"
    by simp_all
  then show ?thesis
    unfolding spec_t_def by (intro divide_left_mono) (auto intro: mult_pos_pos)
qed

lemma spec_d_pos: "0 < spec_d x"
  by (simp add: spec_d_def)

lemma spec_d_antimono: "\<bar>x\<bar> \<le> \<bar>y\<bar> \<Longrightarrow> spec_d y \<le> spec_d x"
proof -
  assume "\<bar>x\<bar> \<le> \<bar>y\<bar>"
  then have "x\<^sup>2 \<le> y\<^sup>2" by (simp add: abs_le_square_iff)
  then show ?thesis by (simp add: spec_d_def)
qed

lemma spec_poly_pos: "0 < spec_poly t"
proof -
  have "spec_poly t = (1.15 * t\<^sup>2 - (1.821256 / 2.3) * t)\<^sup>2 + ((0.3565638 / 1.12) * t - 0.56)\<^sup>2
          + (1.330274 - 1.15\<^sup>2) * t^4
          + (1.781478 - (1.821256 / 2.3)\<^sup>2 - (0.3565638 / 1.12)\<^sup>2) * t\<^sup>2
          + (0.3193815 - 0.56\<^sup>2)"
    by (simp add: spec_poly_def power2_eq_square power4_eq_xxxx algebra_simps)
  moreover have "0 \<le> (1.15 * t\<^sup>2 - (1.821256 / 2.3) * t)\<^sup>2" by simp
  moreover have "0 \<le> ((0.3565638 / 1.12) * t - 0.56)\<^sup>2" by simp
  moreover have "0 \<le> (1.330274 - 1.15\<^sup>2) * t^4"
    by (intro mult_nonneg_nonneg) (simp_all add: power2_eq_square)
  moreover have "0 \<le> (1.781478 - (1.821256 / 2.3)\<^sup>2 - (0.3565638 / 1.12)\<^sup>2) * t\<^sup>2"
    by (intro mult_nonneg_nonneg) (simp_all add: power2_eq_square)
  moreover have "(0::real) < 0.3193815 - 0.56\<^sup>2" by (simp add: power2_eq_square)
  ultimately show ?thesis by linarith
qed


lemma tail_poly_deriv: "(tail_poly has_real_derivative tail_poly' t) (at t)"
  unfolding tail_poly_def spec_poly_def tail_poly'_def
  by (auto intro!: derivative_eq_intros simp add: algebra_simps)

lemma tail_poly'_pos: "0 < tail_poly' t"
proof -
  have "tail_poly' t = (2.5 * t\<^sup>2 - (7.285024 / 5) * t)\<^sup>2 + ((0.7131276 / 1.12) * t - 0.56)\<^sup>2
          + (6.65137 - 2.5\<^sup>2) * t^4
          + (5.344434 - (7.285024 / 5)\<^sup>2 - (0.7131276 / 1.12)\<^sup>2) * t\<^sup>2
          + (0.3193815 - 0.56\<^sup>2)"
    by (simp add: tail_poly'_def power2_eq_square power4_eq_xxxx algebra_simps)
  moreover have "0 \<le> (2.5 * t\<^sup>2 - (7.285024 / 5) * t)\<^sup>2" by simp
  moreover have "0 \<le> ((0.7131276 / 1.12) * t - 0.56)\<^sup>2" by simp
  moreover have "0 \<le> (6.65137 - 2.5\<^sup>2) * t^4"
    by (intro mult_nonneg_nonneg) (simp_all add: power2_eq_square)
  moreover have "0 \<le> (5.344434 - (7.285024 / 5)\<^sup>2 - (0.7131276 / 1.12)\<^sup>2) * t\<^sup>2"
    by (intro mult_nonneg_nonneg) (simp_all add: power2_eq_square)
  moreover have "(0::real) < 0.3193815 - 0.56\<^sup>2" by (simp add: power2_eq_square)
  ultimately show ?thesis by linarith
qed

lemma tail_poly_mono:
  assumes "s \<le> t"
  shows "tail_poly s \<le> tail_poly t"
  using assms
proof (rule DERIV_nonneg_imp_nondecreasing)
  fix x
  from tail_poly_deriv [of x] tail_poly'_pos [of x]
  show "\<exists>y. (tail_poly has_real_derivative y) (at x) \<and> 0 \<le> y"
    by (intro exI [of _ "tail_poly' x"]) simp
qed

lemma tail_poly_pos: "0 < t \<Longrightarrow> 0 < tail_poly t"
  by (simp add: tail_poly_def spec_poly_pos)

lemma spec_prob_tail: "spec_prob x = spec_d x * tail_poly (spec_t x)"
  by (simp add: spec_prob_def tail_poly_def)

lemma spec_prob_pos: "0 < spec_prob x"
  unfolding spec_prob_tail by (intro mult_pos_pos spec_d_pos tail_poly_pos spec_t_pos)

lemma spec_prob_antimono: "\<bar>x\<bar> \<le> \<bar>y\<bar> \<Longrightarrow> spec_prob y \<le> spec_prob x"
  unfolding spec_prob_tail
  by (intro mult_mono spec_d_antimono tail_poly_mono spec_t_antimono
      less_imp_le [OF spec_d_pos] less_imp_le [OF tail_poly_pos] spec_t_pos)

lemma spec_prob_0: "spec_prob 0 = 0.3989423 * 1.2533137"
  by (simp add: spec_prob_def spec_d_def spec_t_def spec_poly_def)

lemma spec_prob_le_0: "spec_prob x \<le> spec_prob 0"
  by (rule spec_prob_antimono) simp

lemma spec_prob_less_half: "spec_prob x < 1 / 2"
proof -
  have "spec_prob 0 < 1 / 2" unfolding spec_prob_0 by simp
  with spec_prob_le_0 [of x] show ?thesis by linarith
qed

lemma spec_normalCDF_mono: "x \<le> y \<Longrightarrow> spec_normalCDF x \<le> spec_normalCDF y"
proof -
  assume xy: "x \<le> y"
  consider "y \<le> 0" | "0 < x" | "x \<le> 0" "0 < y" by linarith
  then show ?thesis
  proof cases
    case 1
    with xy have "\<bar>y\<bar> \<le> \<bar>x\<bar>" by simp
    from spec_prob_antimono [OF this] 1 xy show ?thesis by (simp add: spec_normalCDF_def)
  next
    case 2
    with xy have "\<bar>x\<bar> \<le> \<bar>y\<bar>" by simp
    from spec_prob_antimono [OF this] 2 xy show ?thesis by (simp add: spec_normalCDF_def)
  next
    case 3
    with spec_prob_less_half [of x] spec_prob_less_half [of y] show ?thesis
      by (simp add: spec_normalCDF_def)
  qed
qed

lemma spec_normalCDF_bounds: "0 < spec_normalCDF x \<and> spec_normalCDF x < 1"
  using spec_prob_pos [of x] spec_prob_less_half [of x] by (simp add: spec_normalCDF_def)

lemma normCDF_default_mono:
  "x \<le> y \<Longrightarrow> normCDF_default (Fin x) \<le> normCDF_default (Fin y)"
  by (simp add: normCDF_default_Fin spec_normalCDF_mono)


section \<open>Rounding to 64 bits\<close>

lemma rne_of_int [simp]: "rne (of_int n) = n"
  by (simp add: rne_def)

lemma rne_floor: "\<lfloor>q\<rfloor> \<le> rne q" "rne q \<le> \<lfloor>q\<rfloor> + 1"
  by (simp_all add: rne_def Let_def)

lemma rne_lower:
  assumes "of_int a \<le> q"
  shows "a \<le> rne q"
proof -
  from assms have "a \<le> \<lfloor>q\<rfloor>" by (simp add: le_floor_iff)
  with rne_floor(1) [of q] show ?thesis by linarith
qed

lemma rne_upper:
  assumes "q \<le> of_int b"
  shows "rne q \<le> b"
proof (cases "q = of_int b")
  case True
  then show ?thesis by simp
next
  case False
  with assms have "q < of_int b" by simp
  then have "\<lfloor>q\<rfloor> < b" by (simp add: floor_less_iff)
  with rne_floor(2) [of q] show ?thesis by linarith
qed

lemma max_double_bounds: "2 powr 1023 \<le> max_double" "max_double < 2 powr 1024"
proof -
  have a: "(2::real) powr 1023 = 2 ^ 52 * 2 ^ 971"
    by (simp add: powr_realpow [symmetric] powr_add [symmetric])
  have b: "(2::real) powr 1024 = 2 ^ 53 * 2 ^ 971"
    by (simp add: powr_realpow [symmetric] powr_add [symmetric])
  have "(2::real) ^ 52 \<le> 2 ^ 53 - 1" by simp
  then show "2 powr 1023 \<le> max_double"
    unfolding a max_double_def by (intro mult_right_mono) simp_all
  have "(2::real) ^ 53 - 1 < 2 ^ 53" by simp
  then show "max_double < 2 powr 1024"
    unfolding b max_double_def by (intro mult_strict_right_mono) simp_all
qed

lemma ulp_exp_normal:
  assumes "2 powr of_int e \<le> x" and "x < 2 powr of_int (e + 1)" and "- 1022 \<le> e"
  shows "ulp_exp x = e - 52"
proof -
  have "0 < (2::real) powr of_int e" by simp
  with assms(1) have x: "0 < x" by linarith
  with assms have "\<lfloor>log 2 x\<rfloor> = e"
    by (subst floor_log_eq_powr_iff) simp_all
  with x assms(3) show ?thesis by (simp add: ulp_exp_def)
qed

lemma round_normal:
  assumes "2 powr of_int e \<le> x" and "x < 2 powr of_int (e + 1)" and "- 1022 \<le> e"
  shows "round_to_double x =
           (if max_double < of_int (rne (x / 2 powr of_int (e - 52))) * 2 powr of_int (e - 52)
            then PInf else Fin (of_int (rne (x / 2 powr of_int (e - 52))) * 2 powr of_int (e - 52)))"
    and "2 ^ 52 \<le> rne (x / 2 powr of_int (e - 52))"
    and "rne (x / 2 powr of_int (e - 52)) \<le> 2 ^ 53"
proof -
  have "0 < (2::real) powr of_int e" by simp
  with assms(1) have x: "0 < x" by linarith
  have "2 powr of_int e / 2 powr of_int (e - 52) \<le> x / 2 powr of_int (e - 52)"
    using assms(1) by (intro divide_right_mono) simp_all
  moreover have "(2::real) powr of_int e / 2 powr of_int (e - 52) = of_int (2 ^ 52)"
    by (simp add: powr_diff [symmetric] powr_realpow [symmetric])
  ultimately show lo: "2 ^ 52 \<le> rne (x / 2 powr of_int (e - 52))"
    by (intro rne_lower) simp
  have "x / 2 powr of_int (e - 52) \<le> 2 powr of_int (e + 1) / 2 powr of_int (e - 52)"
    using assms(2) by (intro divide_right_mono) simp_all
  moreover have "(2::real) powr of_int (e + 1) / 2 powr of_int (e - 52) = of_int (2 ^ 53)"
    by (simp add: powr_diff [symmetric] powr_realpow [symmetric])
  ultimately show "rne (x / 2 powr of_int (e - 52)) \<le> 2 ^ 53"
    by (intro rne_upper) simp
  from lo have "0 \<le> (of_int (rne (x / 2 powr of_int (e - 52))) :: real)" by simp
  then have "0 \<le> of_int (rne (x / 2 powr of_int (e - 52))) * (2::real) powr of_int (e - 52)"
    by simp
  then show "round_to_double x =
           (if max_double < of_int (rne (x / 2 powr of_int (e - 52))) * 2 powr of_int (e - 52)
            then PInf else Fin (of_int (rne (x / 2 powr of_int (e - 52))) * 2 powr of_int (e - 52)))"
    using x by (simp add: round_to_double_def ulp_exp_normal [OF assms] Let_def signed_inf_def
        abs_of_nonneg del: of_int_mult)
qed

lemma round_representable:
  assumes "2 ^ 52 \<le> n" and "n < 2 ^ 53" and "- 1022 \<le> e"
    and "of_int n * 2 powr of_int (e - 52) \<le> max_double"
  shows "round_to_double (of_int n * 2 powr of_int (e - 52)) = Fin (of_int n * 2 powr of_int (e - 52))"
proof -
  define y :: real where "y = of_int n * 2 powr of_int (e - 52)"
  have e: "(2::real) powr of_int e = of_int (2 ^ 52) * 2 powr of_int (e - 52)"
    by (simp add: powr_diff powr_realpow [symmetric])
  have e1: "(2::real) powr of_int (e + 1) = of_int (2 ^ 53) * 2 powr of_int (e - 52)"
    by (simp add: powr_diff powr_add powr_realpow [symmetric])
  from assms(1) have "(of_int (2 ^ 52) :: real) \<le> of_int n" by (simp only: of_int_le_iff)
  then have lo: "2 powr of_int e \<le> y"
    unfolding e y_def by (intro mult_right_mono) simp_all
  from assms(2) have "(of_int n :: real) < of_int (2 ^ 53)" by (simp only: of_int_less_iff)
  then have hi: "y < 2 powr of_int (e + 1)"
    unfolding e1 y_def by (intro mult_strict_right_mono) simp_all
  have q: "y / 2 powr of_int (e - 52) = of_int n"
    by (simp add: y_def)
  from round_normal(1) [OF lo hi assms(3)] assms(4) show ?thesis
    unfolding q rne_of_int y_def [symmetric] by (simp add: y_def)
qed

lemma round_power_of_two:
  assumes "- 1022 \<le> k" and "k \<le> 1023"
  shows "round_to_double (2 powr of_int k) = Fin (2 powr of_int k)"
proof -
  have eq: "(2::real) powr of_int k = of_int (2 ^ 52) * 2 powr of_int (k - 52)"
    by (simp add: powr_diff powr_realpow [symmetric])
  from assms(2) have "(2::real) powr of_int k \<le> 2 powr 1023" by (intro powr_mono) simp_all
  with max_double_bounds(1) have "of_int (2 ^ 52) * 2 powr of_int (k - 52) \<le> max_double"
    unfolding eq [symmetric] by linarith
  from round_representable [OF _ _ assms(1) this] show ?thesis
    unfolding eq [symmetric] by simp
qed

lemma round_overflow: "round_to_double (2 powr 1024) = PInf"
proof -
  have lo: "(2::real) powr of_int 1024 \<le> 2 powr 1024" by simp
  have hi: "(2::real) powr 1024 < 2 powr of_int (1024 + 1)" by simp
  have q: "(2::real) powr 1024 / 2 powr of_int (1024 - 52) = of_int (2 ^ 52)"
    by (simp add: powr_diff [symmetric] powr_realpow [symmetric])
  have y: "of_int (2 ^ 52) * (2::real) powr of_int (1024 - 52) = 2 powr 1024"
    by (simp add: powr_realpow [symmetric] powr_add [symmetric])
  from round_normal(1) [OF lo hi] max_double_bounds(2) show ?thesis
    unfolding q rne_of_int y by simp
qed

lemma round_half:
  assumes "2 powr (- 1021) \<le> x" and "round_to_double x = Fin y"
  shows "round_to_double (x / 2) = Fin (y / 2)"
proof -
  have "0 < (2::real) powr (- 1021)" by simp
  with assms(1) have x: "0 < x" by linarith
  define e where "e = \<lfloor>log 2 x\<rfloor>"
  from x have lo: "2 powr of_int e \<le> x" and hi: "x < 2 powr of_int (e + 1)"
    using floor_log_eq_powr_iff [of x 2 e] by (simp_all add: e_def)
  from x assms(1) have "of_int (- 1021) \<le> log 2 x"
    by (subst le_log_iff) simp_all
  then have e: "- 1021 \<le> e" unfolding e_def by (simp only: le_floor_iff)
  then have e': "- 1022 \<le> e" and e'': "- 1022 \<le> e - 1" by simp_all
  have lo2: "2 powr of_int (e - 1) \<le> x / 2"
    using lo by (simp add: powr_diff)
  have hi2: "x / 2 < 2 powr of_int (e - 1 + 1)"
    using hi by (simp add: powr_add)
  have u: "(2::real) powr of_int (e - 1 - 52) = 2 powr of_int (e - 52) / 2"
    by (simp add: powr_diff)
  define n where "n = rne (x / 2 powr of_int (e - 52))"
  have q: "x / 2 / (2 powr of_int (e - 52) / 2) = x / 2 powr of_int (e - 52)"
    by simp
  note a = round_normal [OF lo hi e', folded n_def]
  note b = round_normal(1) [OF lo2 hi2 e'', unfolded u q, folded n_def]
  from a(2) have "0 \<le> (of_int n :: real)" by simp
  then have nn: "0 \<le> of_int n * (2::real) powr of_int (e - 52)" by simp
  from a(1) assms(2) have fin: "\<not> max_double < of_int n * 2 powr of_int (e - 52)"
    and y: "y = of_int n * 2 powr of_int (e - 52)"
    by (simp_all split: if_splits)
  from fin nn have "\<not> max_double < of_int n * (2 powr of_int (e - 52) / 2)"
    by simp
  with b y show ?thesis by simp
qed

lemma round_idem:
  assumes "2 powr (- 1022) \<le> x" and "round_to_double x = Fin y"
  shows "round_to_double y = Fin y" and "2 powr of_int \<lfloor>log 2 x\<rfloor> \<le> y"
proof -
  have "0 < (2::real) powr (- 1022)" by simp
  with assms(1) have x: "0 < x" by linarith
  define e where "e = \<lfloor>log 2 x\<rfloor>"
  from x have lo: "2 powr of_int e \<le> x" and hi: "x < 2 powr of_int (e + 1)"
    using floor_log_eq_powr_iff [of x 2 e] by (simp_all add: e_def)
  from x assms(1) have "of_int (- 1022) \<le> log 2 x"
    by (subst le_log_iff) simp_all
  then have e: "- 1022 \<le> e" unfolding e_def by (simp only: le_floor_iff)
  define n where "n = rne (x / 2 powr of_int (e - 52))"
  note a = round_normal [OF lo hi e, folded n_def]
  from a(1) assms(2) have fin: "of_int n * 2 powr of_int (e - 52) \<le> max_double"
    and y: "y = of_int n * 2 powr of_int (e - 52)"
    by (simp_all split: if_splits)
  have pe: "(2::real) powr of_int e = of_int (2 ^ 52) * 2 powr of_int (e - 52)"
    by (simp add: powr_diff powr_realpow [symmetric])
  from a(2) have "(of_int (2 ^ 52) :: real) \<le> of_int n" by (simp only: of_int_le_iff)
  then show "2 powr of_int e \<le> y"
    unfolding pe y by (intro mult_right_mono) simp_all
  show "round_to_double y = Fin y"
  proof (cases "n < 2 ^ 53")
    case True
    from round_representable [OF a(2) True e fin] show ?thesis by (simp only: y)
  next
    case False
    with a(3) have n: "n = 2 ^ 53" by simp
    have y': "y = 2 powr of_int (e + 1)"
      by (simp add: y n powr_diff powr_add powr_realpow [symmetric])
    from fin max_double_bounds(2) have "2 powr of_int (e + 1) < (2::real) powr 1024"
      unfolding y [symmetric] y' by linarith
    have "e + 1 \<le> 1023"
    proof (rule ccontr)
      assume "\<not> e + 1 \<le> 1023"
      then have "(1024::real) \<le> of_int (e + 1)" by simp
      then have "(2::real) powr 1024 \<le> 2 powr of_int (e + 1)" by (intro powr_mono) simp_all
      with \<open>2 powr of_int (e + 1) < (2::real) powr 1024\<close> show False by linarith
    qed
    moreover from e have "- 1022 \<le> e + 1" by simp
    ultimately show ?thesis unfolding y' by (intro round_power_of_two)
  qed
qed

lemma lit_0: "lit 0 = Double (Fin 0)"
  by (simp add: lit_def round_to_double_def)

lemma pos_not_le_zero64: "lit 0 < x \<Longrightarrow> \<not> x \<le> lit 0"
  by (cases x) (simp add: lit_0 less_double_def less_eq_double_def pos_not_le_zero)

lemma normCDF_default64_reverse64: "normCDF_default64 x = normCDF_reverse64 x"
  by (simp add: normCDF_default64_def normCDF_reverse64_def Let_def)

lemma round_pow2:
  assumes "- 1022 \<le> k" and "k \<le> 1023" and "a = 2 powr of_int k"
  shows "round_to_double a = Fin a"
  using round_power_of_two [OF assms(1,2)] assms(3) by simp

lemma lit_half: "lit 0.5 = Double (Fin (1 / 2))"
  unfolding lit_def by (simp, rule round_pow2 [of "- 1"]) (simp_all add: powr_minus)

lemma lit_2: "lit 2 = Double (Fin 2)"
  unfolding lit_def by (simp, rule round_pow2 [of 1]) simp_all

lemma half_square64:
  assumes "0 < s" and "round_to_double s = Fin s" and "2 powr (- 1021) \<le> s * s"
    and "is_finite (round_to_double (s * s))"
  shows "lit 0.5 * Double (Fin s) * Double (Fin s) = (Double (Fin s) * Double (Fin s)) / lit 2"
proof -
  from assms(4) obtain y where y: "round_to_double (s * s) = Fin y"
    by (cases "round_to_double (s * s)") simp_all
  have s: "2 powr (- 1021) \<le> s"
  proof (rule ccontr)
    assume "\<not> 2 powr (- 1021) \<le> s"
    then have lt: "s < 2 powr (- 1021)" by simp
    have "(2::real) powr (- 1021) \<le> 2 powr 0" by (intro powr_mono) simp_all
    with lt have "s < 1" by simp
    with assms(1) have "s * s < s * 1" by (intro mult_strict_left_mono)
    with lt assms(3) show False by simp
  qed
  have "(2::real) powr (- 1022) \<le> 2 powr (- 1021)" by (intro powr_mono) simp_all
  with assms(3) have normal: "2 powr (- 1022) \<le> s * s" by linarith
  have "(2::real) powr (- 1021) \<le> 2 powr of_int \<lfloor>log 2 (s * s)\<rfloor>"
  proof -
    from assms(1) have "0 < s * s" by simp
    with assms(3) have "of_int (- 1021) \<le> log 2 (s * s)"
      by (subst le_log_iff) simp_all
    then have i: "- 1021 \<le> \<lfloor>log 2 (s * s)\<rfloor>" by (simp only: le_floor_iff)
    have "(2::real) powr of_int (- 1021) \<le> 2 powr of_int \<lfloor>log 2 (s * s)\<rfloor>"
    proof (rule powr_mono)
      from i show "(of_int (- 1021) :: real) \<le> of_int \<lfloor>log 2 (s * s)\<rfloor>"
        by (simp only: of_int_le_iff)
    qed simp
    then show ?thesis by simp
  qed
  with round_idem(2) [OF normal y] have ylo: "2 powr (- 1021) \<le> y" by linarith
  have "round_to_double (s / 2) = Fin (s / 2)"
    by (rule round_half [OF s assms(2)])
  then have l1: "lit 0.5 * Double (Fin s) = Double (Fin (s / 2))"
    unfolding lit_half by (simp add: times_double_def)
  have "round_to_double (s * s / 2) = Fin (y / 2)"
    by (rule round_half [OF assms(3) y])
  then have l: "lit 0.5 * Double (Fin s) * Double (Fin s) = Double (Fin (y / 2))"
    unfolding l1 by (simp add: times_double_def)
  have "round_to_double (y / 2) = Fin (y / 2)"
    by (rule round_half [OF ylo round_idem(1) [OF normal y]])
  then have "(Double (Fin s) * Double (Fin s)) / lit 2 = Double (Fin (y / 2))"
    unfolding lit_2 by (simp add: times_double_def divide_double_def y)
  with l show ?thesis by simp
qed

lemma two_to_times:
  assumes "- 1022 \<le> a + b" and "a + b \<le> 1023"
  shows "two_to a * two_to b = two_to (a + b)"
  using round_power_of_two [OF assms]
  by (simp add: two_to_def times_double_def powr_add)

lemma two_to_divide:
  assumes "- 1022 \<le> a - b" and "a - b \<le> 1023"
  shows "two_to a / two_to b = two_to (a - b)"
  using round_power_of_two [OF assms]
  by (simp add: two_to_def divide_double_def powr_diff)

lemma zero_plus_two_to:
  assumes "- 1022 \<le> k" and "k \<le> 1023"
  shows "Double (Fin 0) + two_to k = two_to k"
  using round_power_of_two [OF assms]
  by (simp add: two_to_def plus_double_def)

lemma two_to_overflow: "two_to 512 * two_to 512 = Double PInf"
  using round_overflow
  by (simp add: two_to_def times_double_def powr_add [symmetric] del: powr_numeral)

lemma two_to_numerals:
  "Double (Fin 1) = two_to 0" "lit 0.5 = two_to (- 1)" "lit 2 = two_to 1"
  "Double (Fin (2 ^ 512)) = two_to 512" "Fin (2 ^ 511) = num_of (two_to 511)"
  unfolding lit_half lit_2 by (simp_all add: two_to_def powr_minus)

lemma round_one: "round_to_double 1 = Fin 1"
  by (rule round_pow2 [of 0]) simp_all

lemma round_zero: "round_to_double 0 = Fin 0"
  by (simp add: round_to_double_def)

lemma log_one64: "Math_log64 (Double (Fin 2500) / Double (Fin 2500)) = Double (Fin 0)"
  by (simp add: Math_log64_def divide_double_def round_one round_zero)

lemma sqrt_one64: "Math_sqrt64 (two_to 0) = two_to 0"
  by (simp add: Math_sqrt64_def two_to_def round_one)

lemma Double_PInf:
  "Double PInf / two_to k = Double PInf" "Double (Fin 0) + Double PInf = Double PInf"
  "Double PInf * two_to k = Double PInf"
  by (simp_all add: two_to_def divide_double_def plus_double_def times_double_def signed_inf_def)

lemma half_square64_not_finite:
  assumes "\<not> is_finite (num_of sigma)" and "\<not> sigma \<le> lit 0"
  shows "lit 0.5 * sigma * sigma = (sigma * sigma) / lit 2"
proof (cases sigma)
  case (Double v)
  with assms show ?thesis
    unfolding lit_half lit_2 lit_0
    by (cases v) (simp_all add: times_double_def divide_double_def less_eq_double_def
        signed_inf_def)
qed

section \<open>The pricer\<close>

text \<open>
  C1. For every input with \<open>T > 0\<close> and \<open>sigma > 0\<close>, \<open>blackScholesCall\<close> (either copy)
  returns an object whose six properties are populated, each with the number that the
  64-bit operations give for its formula:
  \<open>d1 = (ln(S/K) + (r + 0.5 sigma\<^sup>2) T) / (sigma sqrt(T))\<close>, where \<open>0.5 sigma\<^sup>2\<close> is
  \<open>0.5 * sigma * sigma\<close> in \<open>default.js\<close> and \<open>(sigma * sigma) / 2\<close> in \<open>reverse.js\<close>,
  \<open>d2 = d1 - sigma sqrt(T)\<close>, \<open>Nd1 = normCDF(d1)\<close>, \<open>Nd2 = normCDF(d2)\<close>,
  \<open>discountFactor = exp(-r T)\<close> and \<open>premium = S Nd1 - K discountFactor Nd2\<close>.
\<close>

theorem blackScholesCall_normal_fields:
  assumes "lit 0 < T" and "lit 0 < sigma"
  shows "(\<exists>p. blackScholesCall_default64 S K T r sigma = Obj p
            \<and> Double (d1 p) = (Math_log64 (S / K) + (r + lit 0.5 * sigma * sigma) * T)
                                / (sigma * Math_sqrt64 T)
            \<and> Double (d2 p) = Double (d1 p) - sigma * Math_sqrt64 T
            \<and> Double (Nd1 p) = normCDF_default64 (Double (d1 p))
            \<and> Double (Nd2 p) = normCDF_default64 (Double (d2 p))
            \<and> Double (discountFactor p) = Math_exp64 (- r * T)
            \<and> Double (premium p) =
                S * Double (Nd1 p) - K * Double (discountFactor p) * Double (Nd2 p))
       \<and> (\<exists>p. blackScholesCall_reverse64 S K T r sigma = Obj p
            \<and> Double (d1 p) = (Math_log64 (S / K) + (r + (sigma * sigma) / lit 2) * T)
                                / (sigma * Math_sqrt64 T)
            \<and> Double (d2 p) = Double (d1 p) - sigma * Math_sqrt64 T
            \<and> Double (Nd1 p) = normCDF_reverse64 (Double (d1 p))
            \<and> Double (Nd2 p) = normCDF_reverse64 (Double (d2 p))
            \<and> Double (discountFactor p) = Math_exp64 (- r * T)
            \<and> Double (premium p) =
                S * Double (Nd1 p) - K * Double (discountFactor p) * Double (Nd2 p))"
proof -
  from assms have normal: "\<not> (T \<le> lit 0 \<or> sigma \<le> lit 0)"
    by (simp add: pos_not_le_zero64)
  then show ?thesis
    unfolding blackScholesCall_default64_def blackScholesCall_reverse64_def Let_def
    by simp
qed

theorem blackScholesCall_normal_fields_witness:
  "lit 0 < lit 1 \<and> lit 0 < Double (Fin 0.25)
   \<and> (\<exists>p. blackScholesCall_default64 (lit 2500) (lit 2500) (lit 1) (lit 0.07) (Double (Fin 0.25)) = Obj p
        \<and> Double (d2 p) = Double (d1 p) - Double (Fin 0.25) * Math_sqrt64 (lit 1)
        \<and> Double (premium p) =
            lit 2500 * Double (Nd1 p) - lit 2500 * Double (discountFactor p) * Double (Nd2 p))
   \<and> (\<exists>p. blackScholesCall_reverse64 (lit 2500) (lit 2500) (lit 1) (lit 0.07) (Double (Fin 0.25)) = Obj p
        \<and> Double (d1 p) =
            (Math_log64 (lit 2500 / lit 2500)
               + (lit 0.07 + (Double (Fin 0.25) * Double (Fin 0.25)) / lit 2) * lit 1)
              / (Double (Fin 0.25) * Math_sqrt64 (lit 1)))"
proof -
  have T: "lit 0 < lit 1"
    unfolding lit_0 by (simp add: lit_def round_one less_double_def)
  have sigma: "lit 0 < Double (Fin 0.25)"
    unfolding lit_0 by (simp add: less_double_def)
  from blackScholesCall_normal_fields [OF T sigma, of "lit 2500" "lit 2500" "lit 0.07"] T sigma
  show ?thesis by blast
qed

text \<open>
  C2. For every input with \<open>T \<le> 0\<close> or \<open>sigma \<le> 0\<close>, \<open>blackScholesCall\<close> returns
  before the logarithm, the square root and the division: whatever \<open>S\<close>, \<open>K\<close> and
  \<open>r\<close> are, the value returned is the number \<open>0\<close>.
\<close>

theorem blackScholesCall_degenerate_zero:
  assumes "T \<le> Fin 0 \<or> sigma \<le> Fin 0"
  shows "blackScholesCall_default S K T r sigma = Num (Fin 0)
       \<and> blackScholesCall_reverse S K T r sigma = Num (Fin 0)"
  using assms by (simp add: blackScholesCall_default_def blackScholesCall_reverse_def)

theorem blackScholesCall_degenerate_zero_witness:
  "(Fin 0 \<le> Fin 0 \<or> Fin 0.2 \<le> Fin 0)
   \<and> blackScholesCall_default (Fin 2500) (Fin 2400) (Fin 0) (Fin 0.05) (Fin 0.2) = Num (Fin 0)
   \<and> blackScholesCall_reverse (Fin 2500) (Fin 2400) (Fin 0) (Fin 0.05) (Fin 0.2) = Num (Fin 0)
   \<and> blackScholesCall_default (Fin (-1)) (Fin 0) (Fin 0) NaN (Fin 0.2) = Num (Fin 0)"
proof -
  have h: "Fin 0 \<le> Fin 0 \<or> Fin 0.2 \<le> Fin 0" by simp
  from blackScholesCall_degenerate_zero [OF h, of "Fin 2500" "Fin 2400" "Fin 0.05"]
    blackScholesCall_degenerate_zero [OF h, of "Fin (-1)" "Fin 0" NaN] h
  show ?thesis by blast
qed

text \<open>
  C3. The two branches of \<open>blackScholesCall\<close> return values of different shapes: with
  \<open>T \<le> 0\<close> or \<open>sigma \<le> 0\<close> the bare number \<open>0\<close>, on which none of the six
  properties is defined; otherwise an object with all six properties defined.
\<close>

theorem blackScholesCall_result_shapes:
  "(T \<le> Fin 0 \<or> sigma \<le> Fin 0 \<longrightarrow>
      blackScholesCall_default S K T r sigma = Num (Fin 0)
      \<and> blackScholesCall_reverse S K T r sigma = Num (Fin 0)
      \<and> (\<forall>k \<in> set pricing_fields.
            get_property (blackScholesCall_default S K T r sigma) k = None
            \<and> get_property (blackScholesCall_reverse S K T r sigma) k = None))
   \<and> (\<not> (T \<le> Fin 0 \<or> sigma \<le> Fin 0) \<longrightarrow>
      (\<exists>p. blackScholesCall_default S K T r sigma = Obj p)
      \<and> (\<exists>p. blackScholesCall_reverse S K T r sigma = Obj p)
      \<and> (\<forall>k \<in> set pricing_fields.
            get_property (blackScholesCall_default S K T r sigma) k \<noteq> None
            \<and> get_property (blackScholesCall_reverse S K T r sigma) k \<noteq> None))"
  by (simp add: blackScholesCall_default_def blackScholesCall_reverse_def Let_def
      pricing_fields_def)

theorem blackScholesCall_result_shapes_witness:
  "(Fin 0 \<le> Fin 0 \<or> Fin 0.2 \<le> Fin 0)
   \<and> get_property (blackScholesCall_default (Fin 2500) (Fin 2400) (Fin 0) (Fin 0.05) (Fin 0.2))
        ''premium'' = None
   \<and> \<not> (Fin 1 \<le> Fin 0 \<or> Fin 0.2 \<le> Fin 0)
   \<and> get_property (blackScholesCall_default (Fin 2500) (Fin 2400) (Fin 1) (Fin 0.05) (Fin 0.2))
        ''premium'' \<noteq> None"
proof -
  have deg: "Fin 0 \<le> Fin 0 \<or> Fin 0.2 \<le> Fin 0"
    and normal: "\<not> (Fin 1 \<le> Fin 0 \<or> Fin 0.2 \<le> Fin 0)" by simp_all
  have mem: "''premium'' \<in> set pricing_fields" by (simp add: pricing_fields_def)
  from blackScholesCall_result_shapes [of "Fin 0" "Fin 0.2" "Fin 2500" "Fin 2400" "Fin 0.05"]
    deg mem
  have "get_property (blackScholesCall_default (Fin 2500) (Fin 2400) (Fin 0) (Fin 0.05) (Fin 0.2))
        ''premium'' = None" by blast
  moreover
  from blackScholesCall_result_shapes [of "Fin 1" "Fin 0.2" "Fin 2500" "Fin 2400" "Fin 0.05"]
    normal mem
  have "get_property (blackScholesCall_default (Fin 2500) (Fin 2400) (Fin 1) (Fin 0.05) (Fin 0.2))
        ''premium'' \<noteq> None" by blast
  ultimately show ?thesis using deg normal by blast
qed

section \<open>The approximation of the normal distribution function\<close>



text \<open>
  C5, as stated: for every input the two \<open>blackScholesCall\<close> return equal results,
  \<open>0.5 * sigma * sigma\<close> of one being \<open>(sigma * sigma) / 2\<close> of the other. It fails
  where \<open>sigma * sigma\<close> overflows: with \<open>sigma = 2^512\<close> the first expression is
  \<open>2^1023\<close> and the second is \<open>Infinity\<close>, and with \<open>S = K = 2500\<close>, \<open>T = 1\<close> and
  \<open>r = 0\<close> the property \<open>d1\<close> is \<open>2^511\<close> in \<open>default.js\<close> and \<open>Infinity\<close> in
  \<open>reverse.js\<close>.
\<close>

theorem copies_agree_counterexample:
  "get_property
     (blackScholesCall_default64 (Double (Fin 2500)) (Double (Fin 2500)) (Double (Fin 1))
        (Double (Fin 0)) (Double (Fin (2 ^ 512)))) ''d1'' = Some (Fin (2 ^ 511))
   \<and> get_property
     (blackScholesCall_reverse64 (Double (Fin 2500)) (Double (Fin 2500)) (Double (Fin 1))
        (Double (Fin 0)) (Double (Fin (2 ^ 512)))) ''d1'' = Some PInf
   \<and> blackScholesCall_default64 (Double (Fin 2500)) (Double (Fin 2500)) (Double (Fin 1))
        (Double (Fin 0)) (Double (Fin (2 ^ 512)))
     \<noteq> blackScholesCall_reverse64 (Double (Fin 2500)) (Double (Fin 2500)) (Double (Fin 1))
        (Double (Fin 0)) (Double (Fin (2 ^ 512)))"
proof -
  have guard: "\<not> (two_to 0 \<le> lit 0 \<or> two_to 512 \<le> lit 0)"
    by (simp add: two_to_def lit_0 less_eq_double_def)
  have a: "(Math_log64 (Double (Fin 2500) / Double (Fin 2500))
              + (Double (Fin 0) + two_to (- 1) * two_to 512 * two_to 512) * two_to 0)
             / (two_to 512 * Math_sqrt64 (two_to 0)) = two_to 511"
    unfolding log_one64 sqrt_one64
    by (simp add: two_to_times two_to_divide zero_plus_two_to)
  have b: "(Math_log64 (Double (Fin 2500) / Double (Fin 2500))
              + (Double (Fin 0) + (two_to 512 * two_to 512) / two_to 1) * two_to 0)
             / (two_to 512 * Math_sqrt64 (two_to 0)) = Double PInf"
    unfolding log_one64 sqrt_one64 two_to_overflow
    by (simp add: two_to_times Double_PInf)
  have default: "get_property
     (blackScholesCall_default64 (Double (Fin 2500)) (Double (Fin 2500)) (Double (Fin 1))
        (Double (Fin 0)) (Double (Fin (2 ^ 512)))) ''d1'' = Some (Fin (2 ^ 511))"
    unfolding two_to_numerals blackScholesCall_default64_def Let_def a
    using guard by simp
  have reverse: "get_property
     (blackScholesCall_reverse64 (Double (Fin 2500)) (Double (Fin 2500)) (Double (Fin 1))
        (Double (Fin 0)) (Double (Fin (2 ^ 512)))) ''d1'' = Some PInf"
    unfolding two_to_numerals blackScholesCall_reverse64_def Let_def b
    using guard by simp
  from default reverse show ?thesis by auto
qed

text \<open>
  C5, amended. The two \<open>normCDF\<close> return equal results for every \<open>x\<close>. The two
  \<open>blackScholesCall\<close> return equal results, whatever \<open>S\<close>, \<open>K\<close>, \<open>T\<close> and \<open>r\<close> are,
  when \<open>sigma\<close> is a finite 64-bit number whose square is at least \<open>2^(-1021)\<close> and
  does not overflow, when \<open>T \<le> 0\<close> or \<open>sigma \<le> 0\<close>, and when \<open>sigma\<close> is
  \<open>Infinity\<close> or \<open>NaN\<close>.
\<close>

theorem copies_agree_in_range:
  "(is_double (Double (Fin s)) \<and> 2 powr (- 1021) \<le> s * s
      \<and> is_finite (num_of (Double (Fin s) * Double (Fin s))) \<longrightarrow>
      blackScholesCall_default64 S K T r (Double (Fin s))
        = blackScholesCall_reverse64 S K T r (Double (Fin s)))
   \<and> (T \<le> lit 0 \<or> sigma \<le> lit 0 \<or> \<not> is_finite (num_of sigma) \<longrightarrow>
      blackScholesCall_default64 S K T r sigma = blackScholesCall_reverse64 S K T r sigma)
   \<and> normCDF_default64 x = normCDF_reverse64 x"
proof (intro conjI impI)
  assume a: "is_double (Double (Fin s)) \<and> 2 powr (- 1021) \<le> s * s
      \<and> is_finite (num_of (Double (Fin s) * Double (Fin s)))"
  show "blackScholesCall_default64 S K T r (Double (Fin s))
        = blackScholesCall_reverse64 S K T r (Double (Fin s))"
  proof (cases "0 < s")
    case True
    from a have "lit 0.5 * Double (Fin s) * Double (Fin s)
        = (Double (Fin s) * Double (Fin s)) / lit 2"
      using True by (intro half_square64) (simp_all add: is_double_def times_double_def)
    then show ?thesis
      unfolding blackScholesCall_default64_def blackScholesCall_reverse64_def
        normCDF_default64_reverse64
      by (simp only:)
  next
    case False
    then have "Double (Fin s) \<le> lit 0"
      by (simp add: lit_0 less_eq_double_def)
    then show ?thesis
      by (simp add: blackScholesCall_default64_def blackScholesCall_reverse64_def)
  qed
next
  assume a: "T \<le> lit 0 \<or> sigma \<le> lit 0 \<or> \<not> is_finite (num_of sigma)"
  show "blackScholesCall_default64 S K T r sigma = blackScholesCall_reverse64 S K T r sigma"
  proof (cases "T \<le> lit 0 \<or> sigma \<le> lit 0")
    case True
    then show ?thesis
      by (simp add: blackScholesCall_default64_def blackScholesCall_reverse64_def)
  next
    case False
    with a have "lit 0.5 * sigma * sigma = (sigma * sigma) / lit 2"
      by (intro half_square64_not_finite) simp_all
    then show ?thesis
      unfolding blackScholesCall_default64_def blackScholesCall_reverse64_def
        normCDF_default64_reverse64
      by (simp only:)
  qed
next
  show "normCDF_default64 x = normCDF_reverse64 x"
    by (rule normCDF_default64_reverse64)
qed

theorem copies_agree_in_range_witness:
  "is_double (Double (Fin 0.25)) \<and> 2 powr (- 1021) \<le> (0.25::real) * 0.25
   \<and> is_finite (num_of (Double (Fin 0.25) * Double (Fin 0.25)))
   \<and> blackScholesCall_default64 (lit 2500) (lit 2400) (lit 1) (lit 0.07) (Double (Fin 0.25))
       = blackScholesCall_reverse64 (lit 2500) (lit 2400) (lit 1) (lit 0.07) (Double (Fin 0.25))"
proof -
  have q: "round_to_double 0.25 = Fin 0.25"
    by (rule round_pow2 [of "- 2"]) (simp_all add: powr_minus)
  have sq: "round_to_double (0.25 * 0.25) = Fin (0.25 * 0.25)"
    by (rule round_pow2 [of "- 4"]) (simp_all add: powr_minus)
  have "(2::real) powr (- 1021) \<le> 2 powr (- 4)" by (intro powr_mono) simp_all
  also have "(2::real) powr (- 4) = 0.25 * 0.25" by (simp add: powr_minus)
  finally have lo: "2 powr (- 1021) \<le> (0.25::real) * 0.25" .
  have d: "is_double (Double (Fin 0.25))"
    unfolding is_double_def using q by simp
  have f: "is_finite (num_of (Double (Fin 0.25) * Double (Fin 0.25)))"
    unfolding times_double_def using sq by simp
  from copies_agree_in_range [of "0.25" "lit 2500" "lit 2400" "lit 1" "lit 0.07"] d lo f
  show ?thesis by blast
qed

text \<open>
  C8. For every finite real \<open>x\<close>, the value returned by \<open>normCDF\<close> (either copy) lies
  in the range \<open>[0, 1]\<close>.
\<close>

theorem normCDF_range:
  "Fin 0 \<le> normCDF_default (Fin x) \<and> normCDF_default (Fin x) \<le> Fin 1
   \<and> Fin 0 \<le> normCDF_reverse (Fin x) \<and> normCDF_reverse (Fin x) \<le> Fin 1"
  using spec_normalCDF_bounds [of x]
  by (simp add: normCDF_default_Fin normCDF_reverse_Fin)




section \<open>Non-positive prices\<close>

text \<open>
  C9, as stated: with \<open>T > 0\<close>, \<open>sigma > 0\<close> and \<open>S \<le> 0\<close> or \<open>K \<le> 0\<close>, the
  logarithm of \<open>S / K\<close> is undefined or infinite and reaches the returned properties.
  It fails when \<open>S\<close> and \<open>K\<close> are both negative: the quotient is positive and all
  six properties are finite numbers.
\<close>

theorem negative_prices_counterexample:
  "Fin 0 < Fin 1 \<and> Fin 0 < Fin 0.2 \<and> (Fin (-2500) \<le> Fin 0 \<or> Fin (-2400) \<le> Fin 0)
   \<and> all_fields_finite
        (blackScholesCall_default (Fin (-2500)) (Fin (-2400)) (Fin 1) (Fin 0.05) (Fin 0.2))
   \<and> all_fields_finite
        (blackScholesCall_reverse (Fin (-2500)) (Fin (-2400)) (Fin 1) (Fin 0.05) (Fin 0.2))"
  by (simp add: blackScholesCall_default_Fin blackScholesCall_reverse_Fin)

text \<open>
  C9, amended. \<open>blackScholesCall\<close> has no guard on the prices: with \<open>T > 0\<close>,
  \<open>sigma > 0\<close>, and \<open>S \<le> 0\<close> or \<open>K \<le> 0\<close> but not both negative, it returns the
  object of the normal branch, and the logarithm of \<open>S / K\<close>, which is \<open>NaN\<close> or
  infinite, reaches it: \<open>d1\<close> and \<open>d2\<close> are \<open>NaN\<close> or infinite.
\<close>

theorem nonpositive_price_propagates:
  assumes "Fin 0 < T" and "Fin 0 < sigma"
    and "S \<le> Fin 0 \<or> K \<le> Fin 0" and "\<not> (S < Fin 0 \<and> K < Fin 0)"
  shows "(\<exists>p. blackScholesCall_default S K T r sigma = Obj p
            \<and> \<not> is_finite (d1 p) \<and> \<not> is_finite (d2 p))
       \<and> (\<exists>p. blackScholesCall_reverse S K T r sigma = Obj p
            \<and> \<not> is_finite (d1 p) \<and> \<not> is_finite (d2 p))"
proof -
  from assms have normal: "\<not> (T \<le> Fin 0 \<or> sigma \<le> Fin 0)"
    by (simp add: pos_not_le_zero)
  have "\<not> is_finite ((Math_log (S / K) + (r + Fin 0.5 * sigma * sigma) * T)
          / (sigma * Math_sqrt T))"
    by (intro not_finite_divide not_finite_plus log_not_finite assms)
  with normal have default: "\<exists>p. blackScholesCall_default S K T r sigma = Obj p
            \<and> \<not> is_finite (d1 p) \<and> \<not> is_finite (d2 p)"
    unfolding blackScholesCall_default_def Let_def
    by (simp add: not_finite_minus)
  have "\<not> is_finite ((Math_log (S / K) + (r + (sigma * sigma) / Fin 2) * T)
          / (sigma * Math_sqrt T))"
    by (intro not_finite_divide not_finite_plus log_not_finite assms)
  with normal have "\<exists>p. blackScholesCall_reverse S K T r sigma = Obj p
            \<and> \<not> is_finite (d1 p) \<and> \<not> is_finite (d2 p)"
    unfolding blackScholesCall_reverse_def Let_def
    by (simp add: not_finite_minus)
  with default show ?thesis by blast
qed

theorem nonpositive_price_propagates_witness:
  "Fin 0 < Fin 1 \<and> Fin 0 < Fin 0.2 \<and> (Fin 0 \<le> Fin 0 \<or> Fin 2400 \<le> Fin 0)
   \<and> \<not> (Fin 0 < Fin 0 \<and> Fin 2400 < Fin 0)
   \<and> (\<exists>p. blackScholesCall_default (Fin 0) (Fin 2400) (Fin 1) (Fin 0.05) (Fin 0.2) = Obj p
            \<and> \<not> is_finite (d1 p) \<and> \<not> is_finite (d2 p))"
proof -
  have T: "Fin 0 < Fin 1" and sigma: "Fin 0 < Fin 0.2"
    and le: "Fin 0 \<le> Fin 0 \<or> Fin 2400 \<le> Fin 0"
    and one: "\<not> (Fin 0 < Fin 0 \<and> Fin 2400 < Fin 0)" by simp_all
  from nonpositive_price_propagates [OF T sigma le one, of "Fin 0.05"] T sigma le one
  show ?thesis by blast
qed

section \<open>The sensitivity sweep\<close>

lemma sweep_eq_map:
  "sweep inputs f rng stepSize steps i data =
     data @ map (sample inputs f rng stepSize) [i..<Suc steps]"
proof (induction inputs f rng stepSize steps i data rule: sweep.induct)
  case (1 inputs f rng stepSize steps i data)
  show ?case
  proof (cases "i \<le> steps")
    case True
    then have "[i..<Suc steps] = i # [Suc i..<Suc steps]"
      by (simp add: upt_conv_Cons)
    with True "1.IH" show ?thesis
      by (subst sweep.simps) simp
  next
    case False
    then show ?thesis by (subst sweep.simps) simp
  qed
qed

lemma generateSensitivityData_run_sweep:
  "generateSensitivityData inputs f = run_sweep inputs f (ranges inputs f) 50"
  unfolding generateSensitivityData_def run_sweep_def Let_def ..

lemma run_sweep_length: "length (run_sweep inputs f rng steps) = steps + 1"
  by (simp add: run_sweep_def sweep_eq_map)

lemma run_sweep_nth:
  assumes "k \<le> steps"
  shows "run_sweep inputs f rng steps ! k =
           sample inputs f rng ((range_max rng - range_min rng) / Fin (real steps)) k"
proof -
  from assms have "[0..<Suc steps] ! k = k"
    using nth_upt [of 0 k "Suc steps"] by simp
  with assms show ?thesis by (simp add: run_sweep_def sweep_eq_map del: upt_Suc)
qed

lemma sample_x:
  "point_x (sample inputs f rng stepSize k) = range_min rng + Fin (real k) * stepSize"
  by (simp add: sample_def Let_def)

lemma sample_premium:
  "point_premium (sample inputs f rng stepSize k) =
     get_property (price_inputs (set_field inputs f (point_x (sample inputs f rng stepSize k)))) ''premium''"
  by (simp add: sample_def Let_def price_inputs_def)

lemma get_set_field_same: "get_field (set_field i f v) f = v"
  by (cases f) simp_all

lemma get_set_field_other: "g \<noteq> f \<Longrightarrow> get_field (set_field i f v) g = get_field i g"
  by (cases f; cases g) simp_all


lemma run_sweep_x:
  assumes "k \<le> steps" and "1 \<le> steps"
  shows "point_x (run_sweep inputs f \<lparr> range_min = Fin lo, range_max = Fin hi, range_label = lbl \<rparr> steps ! k)
           = Fin (lo + real k * ((hi - lo) / real steps))"
  using assms by (simp add: run_sweep_nth sample_x)

lemma run_sweep_premium:
  assumes "k \<le> steps"
  shows "point_premium (run_sweep inputs f rng steps ! k) =
     get_property (price_inputs (set_field inputs f (point_x (run_sweep inputs f rng steps ! k))))
       ''premium''"
  using assms by (simp add: run_sweep_nth sample_premium)

lemma grid_mono:
  fixes lo hi :: real
  assumes "lo \<le> hi" and "j \<le> k"
  shows "lo + real j * ((hi - lo) / real steps) \<le> lo + real k * ((hi - lo) / real steps)"
proof -
  from assms have "0 \<le> (hi - lo) / real steps" by simp
  moreover from assms have "real j \<le> real k" by simp
  ultimately have "real j * ((hi - lo) / real steps) \<le> real k * ((hi - lo) / real steps)"
    by (rule mult_right_mono [rotated])
  then show ?thesis by simp
qed

lemma grid_strict_mono:
  fixes lo hi :: real
  assumes "lo < hi" and "j < k" and "1 \<le> steps"
  shows "lo + real j * ((hi - lo) / real steps) < lo + real k * ((hi - lo) / real steps)"
proof -
  from assms have "0 < (hi - lo) / real steps" by simp
  moreover from assms have "real j < real k" by simp
  ultimately have "real j * ((hi - lo) / real steps) < real k * ((hi - lo) / real steps)"
    by (rule mult_strict_right_mono [rotated])
  then show ?thesis by simp
qed

lemma ranges_S:
  "ranges inputs Field_S = \<lparr> range_min = inputs_S inputs * Fin 0.7,
     range_max = inputs_S inputs * Fin 1.3,
     range_label = ''Stock Price ('' @ rupee @ '')'' \<rparr>"
  by (simp add: ranges_def)

text \<open>
  C6. A sensitivity sweep over a field with bounds \<open>min \<le> max\<close> and a step count
  \<open>steps \<ge> 1\<close> produces \<open>steps + 1\<close> points, the \<open>k\<close>-th at \<open>min + k (max - min) / steps\<close>,
  from \<open>min\<close> to \<open>max\<close> inclusive; each premium is the pricer's on the inputs with
  the sampled value in the named field and the other four fields unchanged; the points
  are in ascending order of the sampled value, strictly when \<open>min < max\<close>. The sweep of
  \<open>generateSensitivityData\<close> is the one on the range of its field with 50 steps: over
  \<open>S > 0\<close> it yields 51 points with strictly increasing \<open>x\<close>.
\<close>

theorem sweep_points:
  assumes "1 \<le> steps" and "lo \<le> hi"
  shows "generateSensitivityData inputs f = run_sweep inputs f (ranges inputs f) 50
    \<and> (let data = run_sweep inputs f \<lparr> range_min = Fin lo, range_max = Fin hi, range_label = lbl \<rparr> steps
       in length data = steps + 1
        \<and> (\<forall>k \<le> steps.
              point_x (data ! k) = Fin (lo + real k * ((hi - lo) / real steps))
              \<and> point_premium (data ! k) =
                  get_property (price_inputs (set_field inputs f (point_x (data ! k)))) ''premium''
              \<and> get_field (set_field inputs f (point_x (data ! k))) f = point_x (data ! k)
              \<and> (\<forall>g. g \<noteq> f \<longrightarrow>
                    get_field (set_field inputs f (point_x (data ! k))) g = get_field inputs g))
        \<and> point_x (data ! 0) = Fin lo \<and> point_x (data ! steps) = Fin hi
        \<and> (\<forall>j k. j \<le> k \<and> k \<le> steps \<longrightarrow> point_x (data ! j) \<le> point_x (data ! k))
        \<and> (lo < hi \<longrightarrow> (\<forall>j k. j < k \<and> k \<le> steps \<longrightarrow> point_x (data ! j) < point_x (data ! k))))
    \<and> (\<forall>s. inputs_S inputs = Fin s \<and> 0 < s \<longrightarrow>
          length (generateSensitivityData inputs Field_S) = 51
          \<and> (\<forall>j k. j < k \<and> k \<le> 50 \<longrightarrow>
                point_x (generateSensitivityData inputs Field_S ! j)
                  < point_x (generateSensitivityData inputs Field_S ! k)))"
proof (intro conjI)
  show "generateSensitivityData inputs f = run_sweep inputs f (ranges inputs f) 50"
    by (rule generateSensitivityData_run_sweep)
next
  define data where "data = run_sweep inputs f \<lparr> range_min = Fin lo, range_max = Fin hi, range_label = lbl \<rparr> steps"
  have x: "point_x (data ! k) = Fin (lo + real k * ((hi - lo) / real steps))" if "k \<le> steps" for k
    unfolding data_def using that assms(1) by (rule run_sweep_x)
  have len: "length data = steps + 1"
    unfolding data_def by (rule run_sweep_length)
  have each: "\<forall>k \<le> steps.
              point_x (data ! k) = Fin (lo + real k * ((hi - lo) / real steps))
              \<and> point_premium (data ! k) =
                  get_property (price_inputs (set_field inputs f (point_x (data ! k)))) ''premium''
              \<and> get_field (set_field inputs f (point_x (data ! k))) f = point_x (data ! k)
              \<and> (\<forall>g. g \<noteq> f \<longrightarrow>
                    get_field (set_field inputs f (point_x (data ! k))) g = get_field inputs g)"
    using x by (auto simp add: data_def run_sweep_premium get_set_field_same get_set_field_other)
  have first: "point_x (data ! 0) = Fin lo"
    using x [of 0] by simp
  have last: "point_x (data ! steps) = Fin hi"
    using x [of steps] assms(1) by simp
  have asc: "\<forall>j k. j \<le> k \<and> k \<le> steps \<longrightarrow> point_x (data ! j) \<le> point_x (data ! k)"
  proof (intro allI impI)
    fix j k assume jk: "j \<le> k \<and> k \<le> steps"
    then have "j \<le> steps" by simp
    with jk x [of j] x [of k] grid_mono [OF assms(2), of j k steps]
    show "point_x (data ! j) \<le> point_x (data ! k)" by simp
  qed
  have strict: "lo < hi \<longrightarrow> (\<forall>j k. j < k \<and> k \<le> steps \<longrightarrow> point_x (data ! j) < point_x (data ! k))"
  proof (intro allI impI)
    fix j k assume lt: "lo < hi" and jk: "j < k \<and> k \<le> steps"
    then have "j \<le> steps" by simp
    with jk x [of j] x [of k] grid_strict_mono [OF lt _ assms(1), of j k]
    show "point_x (data ! j) < point_x (data ! k)" by simp
  qed
  from len each first last asc strict
  show "let data = run_sweep inputs f \<lparr> range_min = Fin lo, range_max = Fin hi, range_label = lbl \<rparr> steps
       in length data = steps + 1
        \<and> (\<forall>k \<le> steps.
              point_x (data ! k) = Fin (lo + real k * ((hi - lo) / real steps))
              \<and> point_premium (data ! k) =
                  get_property (price_inputs (set_field inputs f (point_x (data ! k)))) ''premium''
              \<and> get_field (set_field inputs f (point_x (data ! k))) f = point_x (data ! k)
              \<and> (\<forall>g. g \<noteq> f \<longrightarrow>
                    get_field (set_field inputs f (point_x (data ! k))) g = get_field inputs g))
        \<and> point_x (data ! 0) = Fin lo \<and> point_x (data ! steps) = Fin hi
        \<and> (\<forall>j k. j \<le> k \<and> k \<le> steps \<longrightarrow> point_x (data ! j) \<le> point_x (data ! k))
        \<and> (lo < hi \<longrightarrow> (\<forall>j k. j < k \<and> k \<le> steps \<longrightarrow> point_x (data ! j) < point_x (data ! k)))"
    unfolding Let_def data_def [symmetric] by blast
next
  show "\<forall>s. inputs_S inputs = Fin s \<and> 0 < s \<longrightarrow>
          length (generateSensitivityData inputs Field_S) = 51
          \<and> (\<forall>j k. j < k \<and> k \<le> 50 \<longrightarrow>
                point_x (generateSensitivityData inputs Field_S ! j)
                  < point_x (generateSensitivityData inputs Field_S ! k))"
  proof (intro allI impI)
    fix s assume s: "inputs_S inputs = Fin s \<and> 0 < s"
    then have rng: "ranges inputs Field_S = \<lparr> range_min = Fin (s * 0.7), range_max = Fin (s * 1.3),
        range_label = ''Stock Price ('' @ rupee @ '')'' \<rparr>"
      by (simp add: ranges_S)
    have gen: "generateSensitivityData inputs Field_S =
        run_sweep inputs Field_S \<lparr> range_min = Fin (s * 0.7), range_max = Fin (s * 1.3),
        range_label = ''Stock Price ('' @ rupee @ '')'' \<rparr> 50"
      by (simp only: generateSensitivityData_run_sweep rng)
    from s have lt: "s * 0.7 < s * 1.3" by simp
    have "point_x (generateSensitivityData inputs Field_S ! j)
            < point_x (generateSensitivityData inputs Field_S ! k)" if "j < k" "k \<le> 50" for j k
    proof -
      from that have "j \<le> 50" by simp
      with that run_sweep_x [of j 50 inputs Field_S "s * 0.7" "s * 1.3"]
        run_sweep_x [of k 50 inputs Field_S "s * 0.7" "s * 1.3"]
        grid_strict_mono [OF lt, of j k 50]
      show ?thesis
        unfolding gen by simp
    qed
    then show "length (generateSensitivityData inputs Field_S) = 51
          \<and> (\<forall>j k. j < k \<and> k \<le> 50 \<longrightarrow>
                point_x (generateSensitivityData inputs Field_S ! j)
                  < point_x (generateSensitivityData inputs Field_S ! k))"
      by (simp add: gen run_sweep_length)
  qed
qed

theorem sweep_points_witness:
  "(1::nat) \<le> 50 \<and> (1750::real) \<le> 3250
   \<and> length (run_sweep \<lparr> inputs_S = Fin 2500, inputs_K = Fin 2500, inputs_T = Fin 1,
         inputs_r = Fin 0.07, inputs_sigma = Fin 0.25 \<rparr> Field_S
         \<lparr> range_min = Fin 1750, range_max = Fin 3250, range_label = ''Stock Price'' \<rparr> 50) = 51
   \<and> point_x (run_sweep \<lparr> inputs_S = Fin 2500, inputs_K = Fin 2500, inputs_T = Fin 1,
         inputs_r = Fin 0.07, inputs_sigma = Fin 0.25 \<rparr> Field_S
         \<lparr> range_min = Fin 1750, range_max = Fin 3250, range_label = ''Stock Price'' \<rparr> 50 ! 50)
       = Fin 3250
   \<and> length (generateSensitivityData \<lparr> inputs_S = Fin 2500, inputs_K = Fin 2500,
         inputs_T = Fin 1, inputs_r = Fin 0.07, inputs_sigma = Fin 0.25 \<rparr> Field_S) = 51
   \<and> point_x (generateSensitivityData \<lparr> inputs_S = Fin 2500, inputs_K = Fin 2500,
         inputs_T = Fin 1, inputs_r = Fin 0.07, inputs_sigma = Fin 0.25 \<rparr> Field_S ! 0)
       < point_x (generateSensitivityData \<lparr> inputs_S = Fin 2500, inputs_K = Fin 2500,
         inputs_T = Fin 1, inputs_r = Fin 0.07, inputs_sigma = Fin 0.25 \<rparr> Field_S ! 1)"
proof -
  have steps: "(1::nat) \<le> 50" and bounds: "(1750::real) \<le> 3250" by simp_all
  have S: "inputs_S \<lparr> inputs_S = Fin 2500, inputs_K = Fin 2500, inputs_T = Fin 1,
         inputs_r = Fin 0.07, inputs_sigma = Fin 0.25 \<rparr> = Fin 2500 \<and> (0::real) < 2500"
    by simp
  have jk: "(0::nat) < 1 \<and> (1::nat) \<le> 50" by simp
  note sweep_points [OF steps bounds, where f = Field_S and lbl = "''Stock Price''"
      and inputs = "\<lparr> inputs_S = Fin 2500, inputs_K = Fin 2500, inputs_T = Fin 1,
         inputs_r = Fin 0.07, inputs_sigma = Fin 0.25 \<rparr>"]
  with S jk steps bounds show ?thesis
    unfolding Let_def by (metis Suc_eq_plus1 numeral_plus_one semiring_norm(5) semiring_norm(8) order_refl)
qed

section \<open>The premium as a function of the spot price\<close>

subsection \<open>A drop of the premium\<close>













subsection \<open>Monotonicity between the steps of the approximation\<close>

lemma smooth_t_eq: "0 \<le> u \<Longrightarrow> smooth_t u = spec_t u"
  by (simp add: smooth_t_def spec_t_def)





lemma spec_prob_upper: "0 \<le> x \<Longrightarrow> spec_prob x = upper_prob x"
  by (simp add: spec_prob_tail upper_prob_def mills_def smooth_t_eq spec_d_def)












lemma upper_prob_pos: "0 \<le> x \<Longrightarrow> 0 < upper_prob x"
  using spec_prob_pos [of x] by (simp add: spec_prob_upper)





























subsection \<open>The claim\<close>




end
